theory Spec2Isabelle
  imports Main "HOL-Library.Word"
begin

section \<open>The email chip input of \<^verbatim>\<open>src/components/EmailInputs.tsx\<close>\<close>

text \<open>
  The component \<^verbatim>\<open>EmailChips\<close> keeps an ordered list of chips in React state, together
  with three flags, and changes them in three event handlers (\<^verbatim>\<open>handleKeyDown\<close>,
  \<^verbatim>\<open>deleteChip\<close>, \<^verbatim>\<open>updateChips\<close>) and one effect. The handlers are embedded as
  functions from the state before the event to the state after it. What the source reads
  from outside is a parameter: the props, the clock reading \<^verbatim>\<open>Date.now()\<close>, the
  content of the text field behind \<^verbatim>\<open>inputRef\<close>, and the language's
  \<^verbatim>\<open>String.prototype.toLowerCase\<close>.
\<close>

subsection \<open>Strings\<close>

text \<open>
  A string of the language is a sequence of 16-bit code units. \<open>js\<close> writes the strings
  of the source text and of the examples: one code unit for each ASCII character.
\<close>

type_synonym jsstring = "16 word list"

definition js :: "string \<Rightarrow> jsstring" where
  "js cs = map of_char cs"

text \<open>
  \<^verbatim>\<open>String.prototype.trim\<close> strips the white space and the line terminators of the
  language from both ends: tab, line feed, vertical tab, form feed, carriage return,
  space, no-break space, U+1680, U+2000 to U+200A, line and paragraph separator, U+202F,
  U+205F, U+3000 and U+FEFF. Each of them is one code unit.
\<close>

definition isWhiteSpace :: "16 word \<Rightarrow> bool" where
  "isWhiteSpace u =
     (u \<in> set [0x0009, 0x000A, 0x000B, 0x000C, 0x000D, 0x0020, 0x00A0, 0x1680,
               0x2000, 0x2001, 0x2002, 0x2003, 0x2004, 0x2005, 0x2006, 0x2007, 0x2008,
               0x2009, 0x200A, 0x2028, 0x2029, 0x202F, 0x205F, 0x3000, 0xFEFF])"

definition trimStart :: "jsstring \<Rightarrow> jsstring" where
  "trimStart cs = dropWhile isWhiteSpace cs"

definition trimEnd :: "jsstring \<Rightarrow> jsstring" where
  "trimEnd cs = rev (dropWhile isWhiteSpace (rev cs))"

definition trim :: "jsstring \<Rightarrow> jsstring" where
  "trim cs = trimEnd (trimStart cs)"

text \<open>
  \<^verbatim>\<open>String.prototype.toLowerCase\<close> follows the case mappings of the Unicode standard,
  which are no part of the repository. The definitions below take the function as their
  first argument \<open>toLowerCase\<close>, and the statements hold for every such function; where a
  statement needs a property of it, the property is a hypothesis.

  \<^verbatim>\<open>inputRef.current.value.trim().toLowerCase()\<close>, the first step of a commit:
\<close>

definition normalize :: "(jsstring \<Rightarrow> jsstring) \<Rightarrow> jsstring \<Rightarrow> jsstring" where
  "normalize toLowerCase raw = toLowerCase (trim raw)"

subsection \<open>Data\<close>

text \<open>\<^verbatim>\<open>type EmailData = { email: string; valid: boolean }\<close>, the public shape of a chip.\<close>

record EmailData =
  email :: jsstring
  valid :: bool

text \<open>\<^verbatim>\<open>type EmailChip = { key: number } & EmailData\<close>. Keys are clock readings, integers.\<close>

record EmailChip = EmailData +
  key :: int

text \<open>
  The props that the logic reads. \<^verbatim>\<open>limit\<close> is an optional number (integers here),
  \<^verbatim>\<open>required\<close> is true, or false when it is false, null or absent. \<^verbatim>\<open>onChipChange\<close>
  says whether the caller supplied a callback; what the callback receives is logged in
  the state. The messages, the placeholder, the input id and the delete button only
  reach the markup.
\<close>

record Props =
  limit :: "int option"
  initialEmails :: "jsstring list option"
  validateEmail :: "(jsstring \<Rightarrow> bool) option"
  onChipChange :: bool
  required :: bool

text \<open>
  The state of one mounted component: the four \<^verbatim>\<open>useState\<close> cells; \<^verbatim>\<open>inputRef\<close>, which
  is \<open>None\<close> while no text field is mounted (\<^verbatim>\<open>inputRef.current\<close> is null) and
  otherwise holds the content of the field; and \<open>notified\<close>, the arguments of the calls of
  \<^verbatim>\<open>onChipChange\<close> made so far, oldest first.
\<close>

record State =
  chips :: "EmailChip list"
  disableInput :: bool
  requiredValidation :: bool
  limitValidation :: bool
  inputRef :: "jsstring option"
  notified :: "EmailData list list"

subsection \<open>Initial state, effect and rendering\<close>

definition emailChipsToEmailData :: "EmailChip list \<Rightarrow> EmailData list" where
  "emailChipsToEmailData cs = map (\<lambda>chip. \<lparr>email = email chip, valid = valid chip\<rparr>) cs"

text \<open>\<^verbatim>\<open>onChipChange?.(payload)\<close>: a call when a callback was supplied, nothing otherwise.\<close>

definition callOnChipChange :: "Props \<Rightarrow> EmailData list \<Rightarrow> State \<Rightarrow> State" where
  "callOnChipChange p payload s =
     (if onChipChange p then s\<lparr>notified := notified s @ [payload]\<rparr> else s)"

text \<open>
  The initializer of the \<^verbatim>\<open>chips\<close> cell:
  \<^verbatim>\<open>initialEmails?.map((email, i) => ({ email, valid: true, key: now - i })) ?? []\<close>.
\<close>

definition initialChips :: "Props \<Rightarrow> int \<Rightarrow> EmailChip list" where
  "initialChips p now =
     (case initialEmails p of
        None \<Rightarrow> []
      | Some es \<Rightarrow>
          map (\<lambda>(i, e). \<lparr>email = e, valid = True, key = now - int i\<rparr>) (enumerate 0 es))"

text \<open>The state of the first render: the flags are false and the text field is mounted, empty.\<close>

definition initialState :: "Props \<Rightarrow> int \<Rightarrow> State" where
  "initialState p now =
     \<lparr>chips = initialChips p now, disableInput = False, requiredValidation = False,
      limitValidation = False, inputRef = Some [], notified = []\<rparr>"

text \<open>\<^verbatim>\<open>!!limit\<close>: an absent limit and the limit 0 are falsy.\<close>

definition limitSet :: "Props \<Rightarrow> bool" where
  "limitSet p = (case limit p of None \<Rightarrow> False | Some l \<Rightarrow> l \<noteq> 0)"

text \<open>
  The effect on \<^verbatim>\<open>[chips.length, limit]\<close>:
  \<^verbatim>\<open>const disable = !!limit && limit <= chips.length\<close>, stored in both flags.
\<close>

definition limitDisable :: "Props \<Rightarrow> State \<Rightarrow> bool" where
  "limitDisable p s =
     (case limit p of None \<Rightarrow> False | Some l \<Rightarrow> l \<noteq> 0 \<and> l \<le> int (length (chips s)))"

definition limitEffect :: "Props \<Rightarrow> State \<Rightarrow> State" where
  "limitEffect p s =
     (let disable = limitDisable p s
      in s\<lparr>disableInput := disable, limitValidation := disable\<rparr>)"

text \<open>
  The markup holds the text field under \<^verbatim>\<open>!disableInput\<close>: rendering with the flag set
  unmounts the field (the ref becomes null), rendering with the flag clear keeps a mounted
  field and mounts a fresh, empty one otherwise.
\<close>

definition renderInput :: "State \<Rightarrow> State" where
  "renderInput s =
     s\<lparr>inputRef := (if disableInput s then None
                     else case inputRef s of None \<Rightarrow> Some [] | Some v \<Rightarrow> Some v)\<rparr>"

text \<open>What the markup shows of the flags.\<close>

definition inputShown :: "State \<Rightarrow> bool" where
  "inputShown s = (\<not> disableInput s)"

definition limitMessageShown :: "Props \<Rightarrow> State \<Rightarrow> bool" where
  "limitMessageShown p s = (limitSet p \<and> limitValidation s)"

definition requiredMessageShown :: "Props \<Rightarrow> State \<Rightarrow> bool" where
  "requiredMessageShown p s = (required p \<and> requiredValidation s)"

text \<open>
  After a handler has run React renders, runs the effect (its result depends only on its
  dependencies, so running it after every handler gives the same flags) and renders again.
\<close>

definition settle :: "Props \<Rightarrow> State \<Rightarrow> State" where
  "settle p s = renderInput (limitEffect p s)"

definition mount :: "Props \<Rightarrow> int \<Rightarrow> State" where
  "mount p now = settle p (initialState p now)"

subsection \<open>The handlers\<close>

definition isOnlyOneValidChip :: "State \<Rightarrow> bool" where
  "isOnlyOneValidChip s = (length (filter valid (chips s)) \<le> 1)"

text \<open>\<^verbatim>\<open>deleteChip(removedChip: EmailChip | undefined)\<close>.\<close>

definition deleteChip :: "Props \<Rightarrow> State \<Rightarrow> EmailChip option \<Rightarrow> State" where
  "deleteChip p s removedChip =
     (case removedChip of
        None \<Rightarrow> s
      | Some r \<Rightarrow>
          if required p \<and> valid r \<and> isOnlyOneValidChip s
          then s\<lparr>requiredValidation := True\<rparr>
          else
            let updatedChips = filter (\<lambda>chip. key chip \<noteq> key r) (chips s)
            in callOnChipChange p (emailChipsToEmailData updatedChips)
                 (s\<lparr>chips := updatedChips\<rparr>))"

text \<open>
  \<^verbatim>\<open>updateChips()\<close>, with the language's \<^verbatim>\<open>toLowerCase\<close> and the clock reading that
  \<^verbatim>\<open>Date.now()\<close> returns in it. The
  locals \<^verbatim>\<open>value\<close> and \<^verbatim>\<open>valid\<close> of the source are \<open>val\<close> and \<open>ok\<close> here, \<open>valid\<close> being
  the field of the chips.
\<close>

definition updateChips :: "(jsstring \<Rightarrow> jsstring) \<Rightarrow> Props \<Rightarrow> int \<Rightarrow> State \<Rightarrow> State" where
  "updateChips toLowerCase p now s =
     (case inputRef s of
        None \<Rightarrow> s
      | Some raw \<Rightarrow>
          let val = toLowerCase (trim raw) in
          if val = [] then s
          else if list_ex (\<lambda>chip. email chip = val) (chips s)
          then s\<lparr>inputRef := Some []\<rparr>
          else
            let ok = (case validateEmail p of Some f \<Rightarrow> f val | None \<Rightarrow> True);
                newChip = \<lparr>email = val, valid = ok, key = now\<rparr>;
                updatedChips = chips s @ [newChip];
                s1 = (if required p \<and> \<not> ok
                      then (if length (filter valid (chips s)) = 0
                            then s\<lparr>requiredValidation := True\<rparr> else s)
                      else s\<lparr>requiredValidation := False\<rparr>);
                s2 = callOnChipChange p (emailChipsToEmailData updatedChips)
                       (s1\<lparr>chips := updatedChips\<rparr>)
            in s2\<lparr>inputRef := Some []\<rparr>)"

text \<open>\<^verbatim>\<open>xs[i]\<close> of an array: undefined out of range.\<close>

definition at :: "'a list \<Rightarrow> int \<Rightarrow> 'a option" where
  "at xs i = (if 0 \<le> i \<and> i < int (length xs) then Some (xs ! nat i) else None)"

text \<open>
  \<^verbatim>\<open>handleKeyDown(event)\<close>, with \<^verbatim>\<open>event.key\<close> and the clock. \<^verbatim>\<open>!inputRef.current?.value\<close>
  holds when there is no field and when its content is the empty string.
\<close>

definition handleKeyDown ::
  "(jsstring \<Rightarrow> jsstring) \<Rightarrow> Props \<Rightarrow> int \<Rightarrow> jsstring \<Rightarrow> State \<Rightarrow> State" where
  "handleKeyDown toLowerCase p now keyPressed s =
     (if keyPressed = js ''Enter'' then updateChips toLowerCase p now s
      else if keyPressed = js ''Backspace''
      then (if (case inputRef s of None \<Rightarrow> True | Some v \<Rightarrow> v = []) \<and> length (chips s) \<noteq> 0
            then deleteChip p s (at (chips s) (int (length (chips s)) - 1))
            else s)
      else s)"

subsection \<open>Events\<close>

text \<open>
  What the user can do: change the content of the text field, press a key in it, leave it
  (\<^verbatim>\<open>onBlur={updateChips}\<close>), and press the delete button of the chip drawn at a
  position of the list. The first three need a mounted field, the last one a chip at that
  position; an event that cannot happen leaves the state as it is.
\<close>

datatype Event = Typed jsstring | KeyDown jsstring int | Blur int | ChipClick nat

fun handle :: "(jsstring \<Rightarrow> jsstring) \<Rightarrow> Props \<Rightarrow> State \<Rightarrow> Event \<Rightarrow> State" where
  "handle toLowerCase p s (Typed v) =
     (case inputRef s of None \<Rightarrow> s | Some _ \<Rightarrow> s\<lparr>inputRef := Some v\<rparr>)"
| "handle toLowerCase p s (KeyDown k now) =
     (case inputRef s of None \<Rightarrow> s | Some _ \<Rightarrow> handleKeyDown toLowerCase p now k s)"
| "handle toLowerCase p s (Blur now) =
     (case inputRef s of None \<Rightarrow> s | Some _ \<Rightarrow> updateChips toLowerCase p now s)"
| "handle toLowerCase p s (ChipClick i) =
     (if i < length (chips s) then deleteChip p s (Some (chips s ! i)) else s)"

definition step :: "(jsstring \<Rightarrow> jsstring) \<Rightarrow> Props \<Rightarrow> State \<Rightarrow> Event \<Rightarrow> State" where
  "step toLowerCase p s ev = settle p (handle toLowerCase p s ev)"

text \<open>The state after mounting at clock reading \<open>now\<close> and a sequence of events.\<close>

definition run :: "(jsstring \<Rightarrow> jsstring) \<Rightarrow> Props \<Rightarrow> int \<Rightarrow> Event list \<Rightarrow> State" where
  "run toLowerCase p now evs = foldl (step toLowerCase p) (mount p now) evs"

subsection \<open>Derived notions used in the statements\<close>

text \<open>The initial emails, with an absent list read as the empty one.\<close>

definition seeds :: "Props \<Rightarrow> jsstring list" where
  "seeds p = (case initialEmails p of None \<Rightarrow> [] | Some es \<Rightarrow> es)"

text \<open>The emails of a chip list as a comparison that ignores case and outer whitespace sees them.\<close>

definition normalizedEmails :: "(jsstring \<Rightarrow> jsstring) \<Rightarrow> EmailChip list \<Rightarrow> jsstring list" where
  "normalizedEmails toLowerCase cs = map (\<lambda>c. normalize toLowerCase (email c)) cs"

text \<open>Chip lists whose emails are pairwise different and each already in normal form.\<close>

definition normalizedDistinct :: "(jsstring \<Rightarrow> jsstring) \<Rightarrow> EmailChip list \<Rightarrow> bool" where
  "normalizedDistinct toLowerCase cs =
     (distinct (map email cs)
      \<and> list_all (\<lambda>c. normalize toLowerCase (email c) = email c) cs)"

text \<open>Typing each text of a list into the field and pressing Enter at the given clock reading.\<close>

definition typeAndEnter :: "(jsstring \<times> int) list \<Rightarrow> Event list" where
  "typeAndEnter vts = concat (map (\<lambda>(v, t). [Typed v, KeyDown (js ''Enter'') t]) vts)"

subsection \<open>A configuration for the examples\<close>

text \<open>
  The configuration of \<^verbatim>\<open>App.tsx\<close> with the limit 2: \<open>required\<close> is on, a callback is
  supplied, and the validator accepts the strings that contain \<^verbatim>\<open>@\<close> (in the place of
  the zod email check, which is outside the repository).
\<close>

definition hasAt :: "jsstring \<Rightarrow> bool" where
  "hasAt e = (0x40 \<in> set e)"

definition exampleProps :: Props where
  "exampleProps =
     \<lparr>limit = Some 2, initialEmails = None, validateEmail = Some hasAt,
      onChipChange = True, required = True\<rparr>"

text \<open>
  The texts of the examples have no cased letter outside ASCII. On such a text the
  language's \<^verbatim>\<open>toLowerCase\<close> replaces \<^verbatim>\<open>A\<close> to \<^verbatim>\<open>Z\<close> by \<^verbatim>\<open>a\<close> to \<^verbatim>\<open>z\<close> and keeps
  every other code unit, which is what \<open>asciiToLowerCase\<close> does with every text.
\<close>

definition asciiLowerUnit :: "16 word \<Rightarrow> 16 word" where
  "asciiLowerUnit u =
     (case map_of (zip (js ''ABCDEFGHIJKLMNOPQRSTUVWXYZ'') (js ''abcdefghijklmnopqrstuvwxyz'')) u of
        None \<Rightarrow> u
      | Some d \<Rightarrow> d)"

definition asciiToLowerCase :: "jsstring \<Rightarrow> jsstring" where
  "asciiToLowerCase cs = map asciiLowerUnit cs"

section \<open>Auxiliary facts\<close>

lemmas string_defs = normalize_def trim_def trimStart_def trimEnd_def isWhiteSpace_def js_def
  asciiToLowerCase_def asciiLowerUnit_def

lemmas model_defs = run_def step_def settle_def mount_def renderInput_def limitEffect_def
  limitDisable_def limitSet_def initialState_def initialChips_def handleKeyDown_def
  updateChips_def deleteChip_def isOnlyOneValidChip_def callOnChipChange_def
  emailChipsToEmailData_def at_def Let_def enumerate_eq_zip seeds_def normalizedEmails_def
  typeAndEnter_def exampleProps_def hasAt_def inputShown_def limitMessageShown_def

subsection \<open>Trimming and normalizing twice\<close>

lemma trimEnd_idem: "trimEnd (trimEnd cs) = trimEnd cs"
  by (simp add: trimEnd_def)

text \<open>Stripping the end of a string that starts with a non-blank keeps that start.\<close>

lemma trimStart_trimEnd_trimStart: "trimStart (trimEnd (trimStart cs)) = trimEnd (trimStart cs)"
proof (cases "trimStart cs")
  case Nil
  have "trimStart [] = []" by (simp add: trimStart_def)
  then show ?thesis using Nil by (simp add: trimEnd_def)
next
  case (Cons y ys)
  then have ny: "\<not> isWhiteSpace y"
    unfolding trimStart_def by (metis hd_dropWhile list.sel(1) list.distinct(1))
  have "\<exists>zs. dropWhile isWhiteSpace (rev ys @ [y]) = zs @ [y]"
  proof (cases "\<forall>x\<in>set (rev ys). isWhiteSpace x")
    case True
    then have "dropWhile isWhiteSpace (rev ys @ [y]) = [] @ [y]"
      using ny by (subst dropWhile_append2) auto
    then show ?thesis by blast
  next
    case False
    then obtain x where "x \<in> set (rev ys)" "\<not> isWhiteSpace x" by blast
    then have "dropWhile isWhiteSpace (rev ys @ [y]) = dropWhile isWhiteSpace (rev ys) @ [y]"
      by (rule dropWhile_append1)
    then show ?thesis by blast
  qed
  then obtain zs where "dropWhile isWhiteSpace (rev ys @ [y]) = zs @ [y]" by blast
  then have "trimEnd (y # ys) = y # rev zs" by (simp add: trimEnd_def)
  then show ?thesis using ny Cons by (simp add: trimStart_def)
qed

lemma trim_idem: "trim (trim cs) = trim cs"
  by (simp add: trim_def trimStart_trimEnd_trimStart trimEnd_idem)

text \<open>
  Two properties of a lower-casing function make normalizing idempotent: lower-casing
  twice is lower-casing once, and lower-casing a trimmed string gives a trimmed string.
\<close>

lemma normalize_idem:
  assumes "\<And>cs. lc (lc cs) = lc cs" and "\<And>cs. trim cs = cs \<Longrightarrow> trim (lc cs) = lc cs"
  shows "normalize lc (normalize lc raw) = normalize lc raw"
proof -
  have "trim (lc (trim raw)) = lc (trim raw)"
    by (rule assms(2)) (rule trim_idem)
  then show ?thesis by (simp add: normalize_def assms(1))
qed

subsection \<open>The lower-casing of the examples\<close>

lemma isWhiteSpace_asciiLowerUnit: "isWhiteSpace (asciiLowerUnit u) = isWhiteSpace u"
  by (auto simp: isWhiteSpace_def asciiLowerUnit_def js_def split: if_splits)

lemma asciiLowerUnit_idem: "asciiLowerUnit (asciiLowerUnit u) = asciiLowerUnit u"
  by (auto simp: asciiLowerUnit_def js_def split: if_splits)

lemma asciiToLowerCase_idem: "asciiToLowerCase (asciiToLowerCase cs) = asciiToLowerCase cs"
  by (simp add: asciiToLowerCase_def asciiLowerUnit_idem)


lemma trimStart_asciiToLowerCase:
  "trimStart (asciiToLowerCase cs) = asciiToLowerCase (trimStart cs)"
  by (simp add: trimStart_def asciiToLowerCase_def dropWhile_map comp_def
      isWhiteSpace_asciiLowerUnit)

lemma trimEnd_asciiToLowerCase: "trimEnd (asciiToLowerCase cs) = asciiToLowerCase (trimEnd cs)"
  by (simp add: trimEnd_def asciiToLowerCase_def dropWhile_map comp_def
      isWhiteSpace_asciiLowerUnit rev_map)

lemma trim_asciiToLowerCase: "trim cs = cs \<Longrightarrow> trim (asciiToLowerCase cs) = asciiToLowerCase cs"
  by (simp add: trim_def trimStart_asciiToLowerCase trimEnd_asciiToLowerCase)

subsection \<open>The three outcomes of a commit\<close>

lemma list_ex_email: "list_ex (\<lambda>chip. email chip = v) cs \<longleftrightarrow> v \<in> email ` set cs"
  by (auto simp: list_ex_iff)

lemma updateChips_empty:
  "inputRef s = Some raw \<Longrightarrow> normalize lc raw = [] \<Longrightarrow> updateChips lc p now s = s"
  by (simp add: updateChips_def normalize_def)

lemma updateChips_duplicate:
  "inputRef s = Some raw \<Longrightarrow> normalize lc raw \<noteq> [] \<Longrightarrow> normalize lc raw \<in> email ` set (chips s)
   \<Longrightarrow> updateChips lc p now s = s\<lparr>inputRef := Some []\<rparr>"
  by (simp add: updateChips_def normalize_def list_ex_email)

lemma updateChips_fresh_chips:
  "inputRef s = Some raw \<Longrightarrow> normalize lc raw \<noteq> [] \<Longrightarrow> normalize lc raw \<notin> email ` set (chips s)
   \<Longrightarrow> chips (updateChips lc p now s) =
       chips s @ [\<lparr>email = normalize lc raw,
                   valid = (case validateEmail p of Some f \<Rightarrow> f (normalize lc raw) | None \<Rightarrow> True),
                   key = now\<rparr>]"
  unfolding normalize_def
  by (simp add: updateChips_def list_ex_email callOnChipChange_def Let_def)

lemma updateChips_fresh_required:
  "inputRef s = Some raw \<Longrightarrow> normalize lc raw \<noteq> [] \<Longrightarrow> normalize lc raw \<notin> email ` set (chips s)
   \<Longrightarrow> requiredValidation (updateChips lc p now s) =
       (if required p \<and> \<not> (case validateEmail p of Some f \<Rightarrow> f (normalize lc raw) | None \<Rightarrow> True)
        then (if filter valid (chips s) = [] then True else requiredValidation s)
        else False)"
  unfolding normalize_def
  by (simp add: updateChips_def list_ex_email callOnChipChange_def Let_def)

lemma updateChips_fresh_notified:
  "inputRef s = Some raw \<Longrightarrow> normalize lc raw \<noteq> [] \<Longrightarrow> normalize lc raw \<notin> email ` set (chips s)
   \<Longrightarrow> notified (updateChips lc p now s) =
       (if onChipChange p then notified s @ [emailChipsToEmailData (chips (updateChips lc p now s))]
        else notified s)"
  unfolding normalize_def
  by (simp add: updateChips_def list_ex_email callOnChipChange_def Let_def)

lemma updateChips_cases:
  "updateChips lc p now s = s \<or> updateChips lc p now s = s\<lparr>inputRef := Some []\<rparr>
   \<or> (\<exists>raw. inputRef s = Some raw \<and> normalize lc raw \<noteq> [] \<and> normalize lc raw \<notin> email ` set (chips s))"
  by (auto simp: updateChips_def normalize_def list_ex_email Let_def split: option.splits)

subsection \<open>Deletion\<close>

lemma deleteChip_refused:
  "required p \<Longrightarrow> valid r \<Longrightarrow> isOnlyOneValidChip s
   \<Longrightarrow> deleteChip p s (Some r) = s\<lparr>requiredValidation := True\<rparr>"
  by (simp add: deleteChip_def)

lemma deleteChip_permitted:
  "\<not> (required p \<and> valid r \<and> isOnlyOneValidChip s) \<Longrightarrow>
   chips (deleteChip p s (Some r)) = filter (\<lambda>c. key c \<noteq> key r) (chips s)"
  by (auto simp: deleteChip_def callOnChipChange_def Let_def)

lemma at_last: "xs \<noteq> [] \<Longrightarrow> at xs (int (length xs) - 1) = Some (last xs)"
  by (cases xs rule: rev_cases) (simp_all add: at_def nat_diff_distrib' nth_append)

lemma backspace_is_deleteChip:
  "chips s \<noteq> [] \<Longrightarrow> inputRef s = Some []
   \<Longrightarrow> handleKeyDown lc p now (js ''Backspace'') s = deleteChip p s (Some (last (chips s)))"
  by (simp add: handleKeyDown_def at_last js_def)

subsection \<open>The change callback\<close>

lemma updateChips_changed_notified:
  assumes "onChipChange p" and "chips (updateChips lc p now s) \<noteq> chips s"
  shows "notified (updateChips lc p now s)
         = notified s @ [emailChipsToEmailData (chips (updateChips lc p now s))]"
proof -
  from updateChips_cases [of lc p now s] assms(2)
  obtain raw where "inputRef s = Some raw" "normalize lc raw \<noteq> []"
      "normalize lc raw \<notin> email ` set (chips s)"
    by auto
  then show ?thesis using assms(1) by (simp add: updateChips_fresh_notified)
qed

lemma deleteChip_changed_notified:
  assumes "onChipChange p" and "chips (deleteChip p s r) \<noteq> chips s"
  shows "notified (deleteChip p s r)
         = notified s @ [emailChipsToEmailData (chips (deleteChip p s r))]"
  using assms
  by (auto simp: deleteChip_def callOnChipChange_def Let_def split: option.splits if_splits)

lemma handleKeyDown_changed_notified:
  assumes "onChipChange p" and "chips (handleKeyDown lc p now k s) \<noteq> chips s"
  shows "notified (handleKeyDown lc p now k s)
         = notified s @ [emailChipsToEmailData (chips (handleKeyDown lc p now k s))]"
  using assms
  by (auto simp: handleKeyDown_def updateChips_changed_notified deleteChip_changed_notified
      split: if_splits)

lemma handle_changed_notified:
  assumes "onChipChange p" and "chips (handle lc p s ev) \<noteq> chips s"
  shows "notified (handle lc p s ev) = notified s @ [emailChipsToEmailData (chips (handle lc p s ev))]"
  using assms
  by (cases ev)
    (auto simp: handleKeyDown_changed_notified updateChips_changed_notified
      deleteChip_changed_notified split: option.splits if_splits)

subsection \<open>Settling and runs\<close>

lemma chips_settle: "chips (settle p s) = chips s"
  by (simp add: settle_def renderInput_def limitEffect_def Let_def)

lemma notified_settle: "notified (settle p s) = notified s"
  by (simp add: settle_def renderInput_def limitEffect_def Let_def)

lemma disableInput_settle: "disableInput (settle p s) = limitDisable p s"
  by (simp add: settle_def renderInput_def limitEffect_def Let_def)

lemma limitValidation_settle: "limitValidation (settle p s) = limitDisable p s"
  by (simp add: settle_def renderInput_def limitEffect_def Let_def)

lemma inputRef_settle:
  "inputRef (settle p s) =
     (if limitDisable p s then None else case inputRef s of None \<Rightarrow> Some [] | Some v \<Rightarrow> Some v)"
  by (simp add: settle_def renderInput_def limitEffect_def Let_def)

lemma limitDisable_chips: "chips s = chips s' \<Longrightarrow> limitDisable p s = limitDisable p s'"
  by (simp add: limitDisable_def split: option.splits)

lemma limitDisable_settle: "limitDisable p (settle p s) = limitDisable p s"
  by (rule limitDisable_chips) (simp add: chips_settle)

lemma run_Nil: "run lc p now [] = mount p now"
  by (simp add: run_def)

lemma run_snoc: "run lc p now (evs @ [ev]) = step lc p (run lc p now evs) ev"
  by (simp add: run_def)

lemma run_append: "run lc p now (xs @ ys) = foldl (step lc p) (run lc p now xs) ys"
  by (simp add: run_def)

lemma run_settled: "\<exists>s0. run lc p now evs = settle p s0"
  by (cases evs rule: rev_cases) (auto simp: run_Nil run_snoc mount_def step_def)

lemma run_flags:
  "disableInput (run lc p now evs) = limitDisable p (run lc p now evs)
   \<and> limitValidation (run lc p now evs) = limitDisable p (run lc p now evs)"
proof -
  obtain s0 where s0: "run lc p now evs = settle p s0" using run_settled by blast
  show ?thesis by (simp add: s0 disableInput_settle limitValidation_settle limitDisable_settle)
qed

lemma run_inputRef: "inputRef (run lc p now evs) = None \<longleftrightarrow> limitDisable p (run lc p now evs)"
proof -
  obtain s0 where s0: "run lc p now evs = settle p s0" using run_settled by blast
  show ?thesis by (simp add: s0 inputRef_settle limitDisable_settle split: option.splits)
qed

lemma initialChips_email: "map email (initialChips p now) = seeds p"
  by (simp add: initialChips_def seeds_def enumerate_eq_zip comp_def case_prod_beta
      split: option.splits)

lemma chips_mount: "chips (mount p now) = initialChips p now"
  by (simp add: mount_def chips_settle initialState_def)

section \<open>Deletion\<close>

text \<open>
  C1. When \<open>required\<close> is active, the chip to delete is valid and it is the only valid
  chip of the list, \<open>deleteChip\<close> refuses: the chips and every other part of the state stay
  as they are, no call of the change callback is added, and the required flag is set.
\<close>

theorem deleteChip_refuses_last_valid:
  assumes "required p" and "valid r" and "filter valid (chips s) = [r]"
  shows "deleteChip p s (Some r) = s\<lparr>requiredValidation := True\<rparr>
       \<and> chips (deleteChip p s (Some r)) = chips s
       \<and> notified (deleteChip p s (Some r)) = notified s
       \<and> requiredValidation (deleteChip p s (Some r))"
proof -
  have "isOnlyOneValidChip s" using assms(3) by (simp add: isOnlyOneValidChip_def)
  then show ?thesis using assms(1,2) by (simp add: deleteChip_refused)
qed

text \<open>
  In a list of an invalid and a valid chip, with no flag set, the deletion of the valid
  chip changes nothing but the required flag.
\<close>

theorem deleteChip_refuses_last_valid_witness:
  "deleteChip exampleProps
     \<lparr>chips = [\<lparr>email = js ''bad'', valid = False, key = 1\<rparr>,
               \<lparr>email = js ''a@x.com'', valid = True, key = 2\<rparr>],
      disableInput = True, requiredValidation = False, limitValidation = True,
      inputRef = None, notified = []\<rparr>
     (Some \<lparr>email = js ''a@x.com'', valid = True, key = 2\<rparr>)
   = \<lparr>chips = [\<lparr>email = js ''bad'', valid = False, key = 1\<rparr>,
               \<lparr>email = js ''a@x.com'', valid = True, key = 2\<rparr>],
      disableInput = True, requiredValidation = True, limitValidation = True,
      inputRef = None, notified = []\<rparr>"
  using deleteChip_refuses_last_valid
    [where p = exampleProps and r = "\<lparr>email = js ''a@x.com'', valid = True, key = 2\<rparr>"
       and s = "\<lparr>chips = [\<lparr>email = js ''bad'', valid = False, key = 1\<rparr>,
                  \<lparr>email = js ''a@x.com'', valid = True, key = 2\<rparr>],
         disableInput = True, requiredValidation = False, limitValidation = True,
         inputRef = None, notified = []\<rparr>"]
  by (simp add: exampleProps_def)

text \<open>
  C8. In a state with at least one chip and a mounted, empty text field, the Backspace
  key is the deletion of the last chip of the list, so it is refused, with the required
  flag set, under the conditions of an explicit deletion; where it is not refused the list
  loses the chips that carry the key of the last one.
\<close>

theorem backspace_on_empty_field_deletes_last_chip:
  assumes "chips s \<noteq> []" and "inputRef s = Some []"
  shows "handleKeyDown lc p now (js ''Backspace'') s = deleteChip p s (Some (last (chips s)))
       \<and> (required p \<and> valid (last (chips s)) \<and> filter valid (chips s) = [last (chips s)]
            \<longrightarrow> handleKeyDown lc p now (js ''Backspace'') s = s\<lparr>requiredValidation := True\<rparr>)
       \<and> (\<not> (required p \<and> valid (last (chips s)) \<and> isOnlyOneValidChip s)
            \<longrightarrow> chips (handleKeyDown lc p now (js ''Backspace'') s)
                = filter (\<lambda>c. key c \<noteq> key (last (chips s))) (chips s))"
proof -
  have eq: "handleKeyDown lc p now (js ''Backspace'') s = deleteChip p s (Some (last (chips s)))"
    using assms by (rule backspace_is_deleteChip)
  have "filter valid (chips s) = [last (chips s)] \<Longrightarrow> isOnlyOneValidChip s"
    by (simp add: isOnlyOneValidChip_def)
  then show ?thesis
    using eq by (auto simp: deleteChip_refused deleteChip_permitted)
qed

text \<open>
  With the chips \<^verbatim>\<open>a@x.com\<close> (valid) and \<^verbatim>\<open>bad\<close> (invalid): Backspace removes \<^verbatim>\<open>bad\<close>,
  a second Backspace is refused on \<^verbatim>\<open>a@x.com\<close>.
\<close>

theorem backspace_on_empty_field_deletes_last_chip_witness:
  "handleKeyDown asciiToLowerCase exampleProps 3 (js ''Backspace'')
     \<lparr>chips = [\<lparr>email = js ''a@x.com'', valid = True, key = 1\<rparr>],
      disableInput = False, requiredValidation = False, limitValidation = False,
      inputRef = Some [], notified = []\<rparr>
   = \<lparr>chips = [\<lparr>email = js ''a@x.com'', valid = True, key = 1\<rparr>],
      disableInput = False, requiredValidation = True, limitValidation = False,
      inputRef = Some [], notified = []\<rparr>
   \<and> chips (handleKeyDown asciiToLowerCase exampleProps 3 (js ''Backspace'')
     \<lparr>chips = [\<lparr>email = js ''a@x.com'', valid = True, key = 1\<rparr>,
               \<lparr>email = js ''bad'', valid = False, key = 2\<rparr>],
      disableInput = False, requiredValidation = False, limitValidation = False,
      inputRef = Some [], notified = []\<rparr>)
   = [\<lparr>email = js ''a@x.com'', valid = True, key = 1\<rparr>]"
  using backspace_on_empty_field_deletes_last_chip
    [where s = "\<lparr>chips = [\<lparr>email = js ''a@x.com'', valid = True, key = 1\<rparr>],
          disableInput = False, requiredValidation = False, limitValidation = False,
          inputRef = Some [], notified = []\<rparr>"
       and p = exampleProps and now = 3 and lc = asciiToLowerCase]
    backspace_on_empty_field_deletes_last_chip
    [where s = "\<lparr>chips = [\<lparr>email = js ''a@x.com'', valid = True, key = 1\<rparr>,
                   \<lparr>email = js ''bad'', valid = False, key = 2\<rparr>],
          disableInput = False, requiredValidation = False, limitValidation = False,
          inputRef = Some [], notified = []\<rparr>"
       and p = exampleProps and now = 3 and lc = asciiToLowerCase]
  by (simp add: model_defs js_def)

section \<open>Commit\<close>




section \<open>The change callback\<close>

text \<open>
  C6. With a callback supplied, every commit and every deletion (by the delete button or
  by Backspace) that changes the chip list adds exactly one call of \<open>onChipChange\<close>, and
  its argument is the whole resulting list translated by \<open>emailChipsToEmailData\<close>: the
  same length and order, the email and the validity of each chip, and nothing that depends
  on the keys.
\<close>

theorem onChipChange_receives_resulting_list:
  assumes "onChipChange p"
  shows "(chips (updateChips lc p now s) \<noteq> chips s
            \<longrightarrow> notified (updateChips lc p now s)
                = notified s @ [emailChipsToEmailData (chips (updateChips lc p now s))])
       \<and> (chips (deleteChip p s r) \<noteq> chips s
            \<longrightarrow> notified (deleteChip p s r)
                = notified s @ [emailChipsToEmailData (chips (deleteChip p s r))])
       \<and> (chips (step lc p s ev) \<noteq> chips s
            \<longrightarrow> notified (step lc p s ev)
                = notified s @ [emailChipsToEmailData (chips (step lc p s ev))])
       \<and> map email (emailChipsToEmailData cs) = map email cs
       \<and> map valid (emailChipsToEmailData cs) = map valid cs
       \<and> emailChipsToEmailData (map (\<lambda>c. c\<lparr>key := k c\<rparr>) cs) = emailChipsToEmailData cs"
proof -
  have "chips (step lc p s ev) \<noteq> chips s
      \<Longrightarrow> notified (step lc p s ev) = notified s @ [emailChipsToEmailData (chips (step lc p s ev))]"
    using assms handle_changed_notified [of p lc s ev]
    by (simp add: step_def chips_settle notified_settle)
  then show ?thesis
    using assms
    by (simp add: updateChips_changed_notified deleteChip_changed_notified
        emailChipsToEmailData_def comp_def)
qed

text \<open>
  From the empty widget: the commit of \<^verbatim>\<open>a@x.com\<close> and of \<^verbatim>\<open>bad\<close> and the deletion of
  \<^verbatim>\<open>bad\<close> give three calls, each with the list of that moment.
\<close>

theorem onChipChange_receives_resulting_list_witness:
  "notified (run asciiToLowerCase exampleProps 0
      [Typed (js ''a@x.com''), KeyDown (js ''Enter'') 1, Typed (js ''bad''), Blur 2, ChipClick 1])
   = [[\<lparr>email = js ''a@x.com'', valid = True\<rparr>],
      [\<lparr>email = js ''a@x.com'', valid = True\<rparr>, \<lparr>email = js ''bad'', valid = False\<rparr>],
      [\<lparr>email = js ''a@x.com'', valid = True\<rparr>]]
   \<and> notified (updateChips asciiToLowerCase exampleProps 1
        (run asciiToLowerCase exampleProps 0 [Typed (js ''a@x.com'')]))
   = [[\<lparr>email = js ''a@x.com'', valid = True\<rparr>]]
   \<and> notified (deleteChip exampleProps
        (run asciiToLowerCase exampleProps 0
           [Typed (js ''a@x.com''), KeyDown (js ''Enter'') 1, Typed (js ''bad''), Blur 2])
        (Some \<lparr>email = js ''bad'', valid = False, key = 2\<rparr>))
   = [[\<lparr>email = js ''a@x.com'', valid = True\<rparr>],
      [\<lparr>email = js ''a@x.com'', valid = True\<rparr>, \<lparr>email = js ''bad'', valid = False\<rparr>],
      [\<lparr>email = js ''a@x.com'', valid = True\<rparr>]]"
  using onChipChange_receives_resulting_list
    [where p = exampleProps and lc = asciiToLowerCase and now = 1
       and s = "run asciiToLowerCase exampleProps 0 [Typed (js ''a@x.com'')]"
       and r = "Some \<lparr>email = js ''bad'', valid = False, key = 2\<rparr>" and ev = "ChipClick 1"
       and cs = "[]" and k = "\<lambda>c. 0"]
    onChipChange_receives_resulting_list
    [where p = exampleProps and lc = asciiToLowerCase and now = 1
       and s = "run asciiToLowerCase exampleProps 0
          [Typed (js ''a@x.com''), KeyDown (js ''Enter'') 1, Typed (js ''bad''), Blur 2]"
       and r = "Some \<lparr>email = js ''bad'', valid = False, key = 2\<rparr>" and ev = "ChipClick 1"
       and cs = "[]" and k = "\<lambda>c. 0"]
  by (simp add: model_defs string_defs)

section \<open>The required flag after a commit\<close>

text \<open>
  C2. A commit that appends a chip leaves the required flag as follows. It is
  cleared when the new chip is valid and when \<open>required\<close> is not active. It is set when
  \<open>required\<close> is active and no chip of the resulting list is valid. When \<open>required\<close> is
  active, the new chip is invalid and a valid chip was in the list already, the flag keeps
  the value it had.
\<close>

theorem updateChips_required_flag:
  assumes "inputRef s = Some raw" and "normalize lc raw \<noteq> []"
    and "normalize lc raw \<notin> email ` set (chips s)"
    and "ok = (case validateEmail p of Some f \<Rightarrow> f (normalize lc raw) | None \<Rightarrow> True)"
  shows "(ok \<longrightarrow> requiredValidation (updateChips lc p now s) = False)
       \<and> (\<not> required p \<longrightarrow> requiredValidation (updateChips lc p now s) = False)
       \<and> (required p \<and> filter valid (chips (updateChips lc p now s)) = []
            \<longrightarrow> requiredValidation (updateChips lc p now s) = True)
       \<and> (required p \<and> \<not> ok \<and> filter valid (chips s) \<noteq> []
            \<longrightarrow> requiredValidation (updateChips lc p now s) = requiredValidation s)"
  using assms by (simp add: updateChips_fresh_required updateChips_fresh_chips)

text \<open>
  With \<open>required\<close> on, an invalid chip into the empty list sets the flag, a valid chip
  after it clears the flag, and an invalid chip next to a valid one leaves a set flag set.
  With \<open>required\<close> off an invalid chip clears the flag.
\<close>

theorem updateChips_required_flag_witness:
  "requiredValidation (run asciiToLowerCase (exampleProps\<lparr>limit := None\<rparr>) 0
        [Typed (js ''bad''), KeyDown (js ''Enter'') 1])
   = True
   \<and> requiredValidation (run asciiToLowerCase (exampleProps\<lparr>limit := None\<rparr>) 0
        [Typed (js ''bad''), KeyDown (js ''Enter'') 1, Typed (js ''a@x.com''),
         KeyDown (js ''Enter'') 2])
   = False
   \<and> requiredValidation (updateChips asciiToLowerCase (exampleProps\<lparr>limit := None\<rparr>) 1
        \<lparr>chips = [], disableInput = False, requiredValidation = False,
         limitValidation = False, inputRef = Some (js ''bad''), notified = []\<rparr>)
   = True
   \<and> requiredValidation (updateChips asciiToLowerCase (exampleProps\<lparr>limit := None\<rparr>) 2
        \<lparr>chips = [\<lparr>email = js ''bad'', valid = False, key = 1\<rparr>], disableInput = False,
         requiredValidation = True, limitValidation = False, inputRef = Some (js ''a@x.com''),
         notified = []\<rparr>)
   = False
   \<and> requiredValidation (updateChips asciiToLowerCase (exampleProps\<lparr>limit := None\<rparr>) 2
        \<lparr>chips = [\<lparr>email = js ''a@x.com'', valid = True, key = 1\<rparr>], disableInput = False,
         requiredValidation = True, limitValidation = False, inputRef = Some (js ''bad''),
         notified = []\<rparr>)
   = True
   \<and> requiredValidation (updateChips asciiToLowerCase
        (exampleProps\<lparr>limit := None, required := False\<rparr>) 2
        \<lparr>chips = [], disableInput = False, requiredValidation = True,
         limitValidation = False, inputRef = Some (js ''bad''), notified = []\<rparr>)
   = False"
  using updateChips_required_flag
    [where s = "\<lparr>chips = [], disableInput = False, requiredValidation = False,
          limitValidation = False, inputRef = Some (js ''bad''), notified = []\<rparr>"
       and raw = "(js ''bad'')" and ok = False and p = "exampleProps\<lparr>limit := None\<rparr>" and now = 1
       and lc = asciiToLowerCase]
    updateChips_required_flag
    [where s = "\<lparr>chips = [\<lparr>email = js ''bad'', valid = False, key = 1\<rparr>], disableInput = False,
          requiredValidation = True, limitValidation = False, inputRef = Some (js ''a@x.com''),
          notified = []\<rparr>"
       and raw = "(js ''a@x.com'')" and ok = True and p = "exampleProps\<lparr>limit := None\<rparr>" and now = 2
       and lc = asciiToLowerCase]
    updateChips_required_flag
    [where s = "\<lparr>chips = [\<lparr>email = js ''a@x.com'', valid = True, key = 1\<rparr>], disableInput = False,
          requiredValidation = True, limitValidation = False, inputRef = Some (js ''bad''),
          notified = []\<rparr>"
       and raw = "(js ''bad'')" and ok = False and p = "exampleProps\<lparr>limit := None\<rparr>" and now = 2
       and lc = asciiToLowerCase]
    updateChips_required_flag
    [where s = "\<lparr>chips = [], disableInput = False, requiredValidation = True,
          limitValidation = False, inputRef = Some (js ''bad''), notified = []\<rparr>"
       and raw = "(js ''bad'')" and ok = False and p = "exampleProps\<lparr>limit := None, required := False\<rparr>" and now = 2
       and lc = asciiToLowerCase]
  by (simp add: model_defs string_defs)

text \<open>
  The flag is not always cleared when a valid chip exists. With \<open>required\<close> on: commit
  \<^verbatim>\<open>a@x.com\<close>, press its delete button (refused, the flag is set), type \<^verbatim>\<open>bad\<close>. The
  commit of \<^verbatim>\<open>bad\<close> appends the chip and the flag is still set, next to a valid chip.
\<close>

theorem updateChips_required_flag_not_cleared:
  "run asciiToLowerCase (exampleProps\<lparr>limit := None\<rparr>) 0
     [Typed (js ''a@x.com''), KeyDown (js ''Enter'') 1, ChipClick 0, Typed (js ''bad'')]
   = \<lparr>chips = [\<lparr>email = js ''a@x.com'', valid = True, key = 1\<rparr>], disableInput = False,
      requiredValidation = True, limitValidation = False, inputRef = Some (js ''bad''),
      notified = [[\<lparr>email = js ''a@x.com'', valid = True\<rparr>]]\<rparr>
   \<and> updateChips asciiToLowerCase (exampleProps\<lparr>limit := None\<rparr>) 2
     \<lparr>chips = [\<lparr>email = js ''a@x.com'', valid = True, key = 1\<rparr>], disableInput = False,
      requiredValidation = True, limitValidation = False, inputRef = Some (js ''bad''),
      notified = [[\<lparr>email = js ''a@x.com'', valid = True\<rparr>]]\<rparr>
   = \<lparr>chips = [\<lparr>email = js ''a@x.com'', valid = True, key = 1\<rparr>,
               \<lparr>email = js ''bad'', valid = False, key = 2\<rparr>],
      disableInput = False, requiredValidation = True, limitValidation = False,
      inputRef = Some [],
      notified = [[\<lparr>email = js ''a@x.com'', valid = True\<rparr>],
                  [\<lparr>email = js ''a@x.com'', valid = True\<rparr>, \<lparr>email = js ''bad'', valid = False\<rparr>]]\<rparr>"
  by (simp add: model_defs string_defs)

section \<open>Duplicates\<close>

text \<open>
  C4. A commit of a text whose normal form (trimmed, in lower case) is an entry, that is
  not empty, and is the email of a chip of the list clears the text field and changes
  nothing else: no chip is added, no flag changes, the callback is not called. Hence,
  whatever the first commit of a text did, the commit of a second text with the same
  normal form leaves the chip list, and so the number of chips, as the first commit left
  it. This holds for every lower-casing function.
\<close>

theorem updateChips_duplicate_is_ignored:
  assumes "inputRef s = Some raw"
  shows "(normalize lc raw \<noteq> [] \<and> normalize lc raw \<in> email ` set (chips s)
            \<longrightarrow> updateChips lc p now s = s\<lparr>inputRef := Some []\<rparr>
              \<and> inputRef (updateChips lc p now s) = Some []
              \<and> chips (updateChips lc p now s) = chips s
              \<and> notified (updateChips lc p now s) = notified s
              \<and> requiredValidation (updateChips lc p now s) = requiredValidation s
              \<and> limitValidation (updateChips lc p now s) = limitValidation s
              \<and> disableInput (updateChips lc p now s) = disableInput s)
       \<and> (normalize lc raw' = normalize lc raw
            \<longrightarrow> chips (updateChips lc p now' ((updateChips lc p now s)\<lparr>inputRef := Some raw'\<rparr>))
                = chips (updateChips lc p now s)
              \<and> length (chips (updateChips lc p now'
                    ((updateChips lc p now s)\<lparr>inputRef := Some raw'\<rparr>)))
                = length (chips (updateChips lc p now s)))"
proof -
  have dup: "normalize lc raw \<noteq> [] \<Longrightarrow> normalize lc raw \<in> email ` set (chips s)
      \<Longrightarrow> updateChips lc p now s = s\<lparr>inputRef := Some []\<rparr>"
    using assms by (simp add: updateChips_duplicate)
  have twice: "chips (updateChips lc p now' ((updateChips lc p now s)\<lparr>inputRef := Some raw'\<rparr>))
      = chips (updateChips lc p now s)" if same: "normalize lc raw' = normalize lc raw"
  proof -
    let ?t = "(updateChips lc p now s)\<lparr>inputRef := Some raw'\<rparr>"
    have ref: "inputRef ?t = Some raw'" by simp
    show ?thesis
    proof (cases "normalize lc raw = []")
      case True
      then show ?thesis using updateChips_empty [OF ref, of lc p now'] same by simp
    next
      case False
      have "normalize lc raw \<in> email ` set (chips ?t)"
      proof (cases "normalize lc raw \<in> email ` set (chips s)")
        case True
        then show ?thesis using dup False by simp
      next
        case False
        show ?thesis
          using updateChips_fresh_chips [OF assms \<open>normalize lc raw \<noteq> []\<close> False, of p now]
          by simp
      qed
      then show ?thesis
        using updateChips_duplicate [OF ref, of lc p now'] same False by simp
    qed
  qed
  show ?thesis
    using dup twice by auto
qed

text \<open>
  After the commit of \<^verbatim>\<open>a@x.com\<close> the commit of \<^verbatim>\<open>" A@X.com "\<close>, here with a no-break
  space in front, clears the field and leaves everything else.
\<close>

theorem updateChips_duplicate_is_ignored_witness:
  "updateChips asciiToLowerCase exampleProps 2
     \<lparr>chips = [\<lparr>email = js ''a@x.com'', valid = True, key = 1\<rparr>], disableInput = False,
      requiredValidation = False, limitValidation = False,
      inputRef = Some (0xA0 # js '' A@X.com ''),
      notified = [[\<lparr>email = js ''a@x.com'', valid = True\<rparr>]]\<rparr>
   = \<lparr>chips = [\<lparr>email = js ''a@x.com'', valid = True, key = 1\<rparr>], disableInput = False,
      requiredValidation = False, limitValidation = False, inputRef = Some [],
      notified = [[\<lparr>email = js ''a@x.com'', valid = True\<rparr>]]\<rparr>
   \<and> chips (updateChips asciiToLowerCase exampleProps 2
        ((updateChips asciiToLowerCase exampleProps 1
            \<lparr>chips = [], disableInput = False, requiredValidation = False,
             limitValidation = False, inputRef = Some (js ''a@x.com''), notified = []\<rparr>)
         \<lparr>inputRef := Some (0xA0 # js '' A@X.com '')\<rparr>))
   = [\<lparr>email = js ''a@x.com'', valid = True, key = 1\<rparr>]"
  using updateChips_duplicate_is_ignored
    [where s = "\<lparr>chips = [\<lparr>email = js ''a@x.com'', valid = True, key = 1\<rparr>],
          disableInput = False, requiredValidation = False, limitValidation = False,
          inputRef = Some (0xA0 # js '' A@X.com ''),
          notified = [[\<lparr>email = js ''a@x.com'', valid = True\<rparr>]]\<rparr>"
       and raw = "0xA0 # js '' A@X.com ''" and lc = asciiToLowerCase and p = exampleProps
       and now = 2 and raw' = "js ''a@x.com''" and now' = 3]
    updateChips_duplicate_is_ignored
    [where s = "\<lparr>chips = [], disableInput = False, requiredValidation = False,
          limitValidation = False, inputRef = Some (js ''a@x.com''), notified = []\<rparr>"
       and raw = "js ''a@x.com''" and lc = asciiToLowerCase and p = exampleProps
       and now = 1 and raw' = "0xA0 # js '' A@X.com ''" and now' = 2]
  by (simp add: model_defs string_defs)

section \<open>The limit\<close>

lemma limitEffect_flags_only:
  "chips (limitEffect p s) = chips s \<and> requiredValidation (limitEffect p s) = requiredValidation s
   \<and> notified (limitEffect p s) = notified s \<and> inputRef (limitEffect p s) = inputRef s"
  by (simp add: limitEffect_def Let_def)

lemma updateChips_limit: "updateChips lc (p\<lparr>limit := l\<rparr>) now s = updateChips lc p now s"
  by (simp add: updateChips_def callOnChipChange_def Let_def split: option.splits)

lemma deleteChip_limit: "deleteChip (p\<lparr>limit := l\<rparr>) s r = deleteChip p s r"
  by (simp add: deleteChip_def callOnChipChange_def Let_def split: option.splits)

text \<open>
  C9. The commit does not read the limit: its result is the same under every limit, and
  with a non-empty normal form that no chip carries it makes the list one chip longer,
  whatever the limit and the length are. The initial list has one chip for each initial
  email, in their order, whatever the limit is. The same holds for the deletion. So the
  list can be longer than the limit. The limit is read by the effect alone, which writes
  the two flags \<open>disableInput\<close> and \<open>limitValidation\<close> and nothing else.
\<close>

theorem commit_and_seeding_ignore_limit:
  "updateChips lc (p\<lparr>limit := l\<rparr>) now s = updateChips lc p now s
   \<and> (inputRef s = Some raw \<and> normalize lc raw \<noteq> [] \<and> normalize lc raw \<notin> email ` set (chips s)
        \<longrightarrow> length (chips (updateChips lc p now s)) = Suc (length (chips s)))
   \<and> initialChips (p\<lparr>limit := l\<rparr>) now = initialChips p now
   \<and> map email (chips (initialState p now)) = seeds p
   \<and> length (chips (mount p now)) = length (seeds p)
   \<and> deleteChip (p\<lparr>limit := l\<rparr>) s r = deleteChip p s r
   \<and> chips (limitEffect p s) = chips s
   \<and> requiredValidation (limitEffect p s) = requiredValidation s
   \<and> notified (limitEffect p s) = notified s
   \<and> (\<exists>q t. limit q = Some 1 \<and> length (chips (mount q t)) = 3)"
proof -
  have "length (map email (initialChips p now)) = length (seeds p)"
    by (simp only: initialChips_email)
  then have len: "length (chips (mount p now)) = length (seeds p)"
    by (simp add: chips_mount)
  have "limit (exampleProps\<lparr>limit := Some 1, initialEmails := Some [(js ''a''), (js ''b''), (js ''c'')]\<rparr>) = Some 1
      \<and> length (chips (mount
          (exampleProps\<lparr>limit := Some 1, initialEmails := Some [(js ''a''), (js ''b''), (js ''c'')]\<rparr>) 0)) = 3"
    by (simp add: model_defs)
  then have ex: "\<exists>q t. limit q = Some 1 \<and> length (chips (mount q t)) = 3"
    by blast
  have seed: "initialChips (p\<lparr>limit := l\<rparr>) now = initialChips p now"
    by (simp add: initialChips_def)
  have init: "map email (chips (initialState p now)) = seeds p"
    by (simp add: initialState_def initialChips_email)
  show ?thesis
    using len ex seed init
    by (simp add: updateChips_limit deleteChip_limit updateChips_fresh_chips
        limitEffect_flags_only)
qed

text \<open>
  With the limit 1: three initial emails give three chips, and a commit in a state with
  two chips and a mounted text field gives a third.
\<close>

theorem commit_and_seeding_ignore_limit_witness:
  "map email (chips (mount
      (exampleProps\<lparr>limit := Some 1, initialEmails := Some [(js ''a''), (js ''b''), (js ''c'')]\<rparr>) 10))
   = [(js ''a''), (js ''b''), (js ''c'')]
   \<and> chips (updateChips asciiToLowerCase (exampleProps\<lparr>limit := Some 1\<rparr>) 12
        \<lparr>chips = [\<lparr>email = js ''a'', valid = True, key = 10\<rparr>, \<lparr>email = js ''b'', valid = True, key = 9\<rparr>],
         disableInput = False, requiredValidation = False, limitValidation = False,
         inputRef = Some (js ''c@x.com''), notified = []\<rparr>)
   = [\<lparr>email = js ''a'', valid = True, key = 10\<rparr>, \<lparr>email = js ''b'', valid = True, key = 9\<rparr>,
      \<lparr>email = js ''c@x.com'', valid = True, key = 12\<rparr>]"
  using commit_and_seeding_ignore_limit
    [where p = "exampleProps\<lparr>limit := Some 1\<rparr>" and l = None and now = 12
       and raw = "js ''c@x.com''" and lc = asciiToLowerCase
       and s = "\<lparr>chips = [\<lparr>email = js ''a'', valid = True, key = 10\<rparr>,
                  \<lparr>email = js ''b'', valid = True, key = 9\<rparr>],
         disableInput = False, requiredValidation = False, limitValidation = False,
         inputRef = Some (js ''c@x.com''), notified = []\<rparr>"]
    commit_and_seeding_ignore_limit
    [where p = "exampleProps\<lparr>limit := Some 1, initialEmails := Some [(js ''a''), (js ''b''), (js ''c'')]\<rparr>"
       and now = 10]
  by (simp add: model_defs string_defs)

section \<open>Keys\<close>

lemma initialChips_key:
  "map key (initialChips p now) = map (\<lambda>i. now - int i) [0..<length (seeds p)]"
proof (cases "initialEmails p")
  case None
  then show ?thesis by (simp add: initialChips_def seeds_def)
next
  case (Some es)
  have firsts: "map fst (zip [0..<length es] es) = [0..<length es]"
    by simp
  have "map (\<lambda>x. now - int (fst x)) (zip [0..<length es] es)
      = map ((\<lambda>i. now - int i) \<circ> fst) (zip [0..<length es] es)"
    by (simp only: comp_def)
  also have "\<dots> = map (\<lambda>i. now - int i) (map fst (zip [0..<length es] es))"
    by (simp only: map_map)
  also have "\<dots> = map (\<lambda>i. now - int i) [0..<length es]"
    by (simp only: firsts)
  finally show ?thesis
    using Some by (simp add: initialChips_def seeds_def enumerate_eq_zip comp_def case_prod_beta)
qed

text \<open>
  C10. A deletion that is not refused keeps exactly the chips whose key differs from the
  key of the chip to delete. The key of a committed chip is the clock reading of the
  commit, the key of the i-th initial chip is the clock reading of the mount minus i.
  Nothing makes these different: two commits at the same clock reading give two chips with
  one key, and one press of a delete button then removes both (the two texts of this run
  are in lower case, so lower-casing leaves them as they are).
\<close>

theorem deleteChip_filters_by_key:
  "(\<not> (required p \<and> valid r \<and> isOnlyOneValidChip s)
      \<longrightarrow> chips (deleteChip p s (Some r)) = filter (\<lambda>c. key c \<noteq> key r) (chips s))
   \<and> (inputRef s = Some raw \<and> normalize lc raw \<noteq> [] \<and> normalize lc raw \<notin> email ` set (chips s)
        \<longrightarrow> key (last (chips (updateChips lc p now s))) = now)
   \<and> map key (initialChips p now) = map (\<lambda>i. now - int i) [0..<length (seeds p)]
   \<and> (lc (js ''a@x.com'') = js ''a@x.com'' \<and> lc (js ''b@x.com'') = js ''b@x.com''
        \<longrightarrow> (\<exists>q t evs i. map key (chips (run lc q t evs)) = [5, 5]
              \<and> map email (chips (run lc q t evs)) = [js ''a@x.com'', js ''b@x.com'']
              \<and> chips (step lc q (run lc q t evs) (ChipClick i)) = []))"
proof -
  have ex: "\<exists>q t evs i. map key (chips (run lc q t evs)) = [5, 5]
         \<and> map email (chips (run lc q t evs)) = [js ''a@x.com'', js ''b@x.com'']
         \<and> chips (step lc q (run lc q t evs) (ChipClick i)) = []"
    if low: "lc (js ''a@x.com'') = js ''a@x.com''" "lc (js ''b@x.com'') = js ''b@x.com''"
  proof -
    have "map key (chips (run lc exampleProps 0
              [Typed (js ''a@x.com''), KeyDown (js ''Enter'') 5,
               Typed (js ''b@x.com''), KeyDown (js ''Enter'') 5]))
            = [5, 5]
        \<and> map email (chips (run lc exampleProps 0
              [Typed (js ''a@x.com''), KeyDown (js ''Enter'') 5,
               Typed (js ''b@x.com''), KeyDown (js ''Enter'') 5]))
            = [js ''a@x.com'', js ''b@x.com'']
        \<and> chips (step lc exampleProps (run lc exampleProps 0
              [Typed (js ''a@x.com''), KeyDown (js ''Enter'') 5,
               Typed (js ''b@x.com''), KeyDown (js ''Enter'') 5])
              (ChipClick 0)) = []"
      using low by (simp add: model_defs string_defs)
    then show ?thesis by (intro exI)
  qed
  show ?thesis
    using ex by (simp add: deleteChip_permitted updateChips_fresh_chips initialChips_key)
qed

text \<open>
  Two commits at the clock reading 5, then the delete button of the first chip: the list
  is empty. The same with the clock readings 5 and 6 leaves the second chip.
\<close>

theorem deleteChip_filters_by_key_witness:
  "chips (deleteChip exampleProps
     \<lparr>chips = [\<lparr>email = js ''a@x.com'', valid = True, key = 5\<rparr>,
               \<lparr>email = js ''b@x.com'', valid = True, key = 5\<rparr>],
      disableInput = True, requiredValidation = False, limitValidation = True,
      inputRef = None, notified = []\<rparr>
     (Some \<lparr>email = js ''a@x.com'', valid = True, key = 5\<rparr>))
   = []
   \<and> chips (deleteChip exampleProps
     \<lparr>chips = [\<lparr>email = js ''a@x.com'', valid = True, key = 5\<rparr>,
               \<lparr>email = js ''b@x.com'', valid = True, key = 6\<rparr>],
      disableInput = True, requiredValidation = False, limitValidation = True,
      inputRef = None, notified = []\<rparr>
     (Some \<lparr>email = js ''a@x.com'', valid = True, key = 5\<rparr>))
   = [\<lparr>email = js ''b@x.com'', valid = True, key = 6\<rparr>]
   \<and> key (last (chips (updateChips asciiToLowerCase exampleProps 5
        \<lparr>chips = [\<lparr>email = js ''a@x.com'', valid = True, key = 5\<rparr>], disableInput = False,
         requiredValidation = False, limitValidation = False, inputRef = Some (js ''b@x.com''),
         notified = []\<rparr>)))
   = 5"
  using deleteChip_filters_by_key
    [where p = exampleProps and r = "\<lparr>email = js ''a@x.com'', valid = True, key = 5\<rparr>"
       and s = "\<lparr>chips = [\<lparr>email = js ''a@x.com'', valid = True, key = 5\<rparr>,
                  \<lparr>email = js ''b@x.com'', valid = True, key = 5\<rparr>],
         disableInput = True, requiredValidation = False, limitValidation = True,
         inputRef = None, notified = []\<rparr>" and raw = "[]" and now = 0 and lc = asciiToLowerCase]
    deleteChip_filters_by_key
    [where p = exampleProps and r = "\<lparr>email = js ''a@x.com'', valid = True, key = 5\<rparr>"
       and s = "\<lparr>chips = [\<lparr>email = js ''a@x.com'', valid = True, key = 5\<rparr>,
                  \<lparr>email = js ''b@x.com'', valid = True, key = 6\<rparr>],
         disableInput = True, requiredValidation = False, limitValidation = True,
         inputRef = None, notified = []\<rparr>" and raw = "[]" and now = 0 and lc = asciiToLowerCase]
    deleteChip_filters_by_key
    [where p = exampleProps and r = "\<lparr>email = js ''a@x.com'', valid = True, key = 5\<rparr>"
       and s = "\<lparr>chips = [\<lparr>email = js ''a@x.com'', valid = True, key = 5\<rparr>],
         disableInput = False, requiredValidation = False, limitValidation = False,
         inputRef = Some (js ''b@x.com''), notified = []\<rparr>" and raw = "js ''b@x.com''" and now = 5 and lc = asciiToLowerCase]
  by (simp add: model_defs string_defs)

section \<open>Uniqueness of the emails\<close>

lemma normalizedDistinct_filter:
  "normalizedDistinct lc cs \<Longrightarrow> normalizedDistinct lc (filter P cs)"
  by (simp add: normalizedDistinct_def distinct_map_filter list_all_iff)

lemma normalizedDistinct_deleteChip:
  "normalizedDistinct lc (chips s) \<Longrightarrow> normalizedDistinct lc (chips (deleteChip p s r))"
  by (auto simp: deleteChip_def callOnChipChange_def Let_def normalizedDistinct_filter
      split: option.splits)

lemma normalizedDistinct_updateChips:
  assumes "normalizedDistinct lc (chips s)"
    and "\<And>cs. normalize lc (normalize lc cs) = normalize lc cs"
  shows "normalizedDistinct lc (chips (updateChips lc p now s))"
proof -
  from updateChips_cases [of lc p now s] consider
      "updateChips lc p now s = s" | "updateChips lc p now s = s\<lparr>inputRef := Some []\<rparr>"
    | raw where "inputRef s = Some raw" "normalize lc raw \<noteq> []"
        "normalize lc raw \<notin> email ` set (chips s)"
    by blast
  then show ?thesis
  proof cases
    case 1
    then show ?thesis using assms(1) by simp
  next
    case 2
    then show ?thesis using assms(1) by simp
  next
    case 3
    then show ?thesis
      using assms by (simp add: updateChips_fresh_chips normalizedDistinct_def)
  qed
qed

lemma normalizedDistinct_handle:
  assumes "normalizedDistinct lc (chips s)"
    and "\<And>cs. normalize lc (normalize lc cs) = normalize lc cs"
  shows "normalizedDistinct lc (chips (handle lc p s ev))"
  using assms
  by (cases ev)
    (simp_all add: handleKeyDown_def normalizedDistinct_deleteChip
      normalizedDistinct_updateChips split: option.splits)

lemma normalizedDistinct_mount:
  assumes "distinct (seeds p)" and "map (normalize lc) (seeds p) = seeds p"
  shows "normalizedDistinct lc (chips (mount p now))"
proof -
  have "map (normalize lc) (map email (initialChips p now)) = map email (initialChips p now)"
    using assms(2) by (simp only: initialChips_email)
  then have "list_all (\<lambda>c. normalize lc (email c) = email c) (initialChips p now)"
    by (simp add: list_all_iff map_eq_conv [where g = id, simplified] comp_def)
  then show ?thesis
    using assms(1) by (simp add: chips_mount normalizedDistinct_def initialChips_email)
qed

lemma normalizedDistinct_run:
  assumes "distinct (seeds p)" and "map (normalize lc) (seeds p) = seeds p"
    and "\<And>cs. normalize lc (normalize lc cs) = normalize lc cs"
  shows "normalizedDistinct lc (chips (run lc p now evs))"
proof (induction evs rule: rev_induct)
  case Nil
  show ?case using assms(1,2) by (simp add: run_Nil normalizedDistinct_mount)
next
  case (snoc ev evs)
  then show ?case
    by (simp add: run_snoc step_def chips_settle normalizedDistinct_handle assms(3))
qed

lemma normalizedDistinct_normalizedEmails:
  assumes "normalizedDistinct lc cs"
  shows "normalizedEmails lc cs = map email cs"
  using assms by (simp add: normalizedDistinct_def normalizedEmails_def list_all_iff)

text \<open>
  C3. Lower-casing twice is lower-casing once, and lower-casing a trimmed string gives a
  trimmed string. With a lower-casing function of this kind: if the initial emails are
  pairwise different and each of them is in normal form already (trimmed and in lower
  case), then in every state that the widget reaches from its mount by any sequence of
  events no two chips have the same email, also when the emails are compared after
  trimming and without regard to case.
\<close>

theorem chips_unique_for_normalized_seeds:
  assumes "distinct (seeds p)" and "map (normalize lc) (seeds p) = seeds p"
    and "\<And>cs. lc (lc cs) = lc cs" and "\<And>cs. trim cs = cs \<Longrightarrow> trim (lc cs) = lc cs"
  shows "distinct (normalizedEmails lc (chips (run lc p now evs)))
       \<and> distinct (map email (chips (run lc p now evs)))"
proof -
  have idem: "normalize lc (normalize lc cs) = normalize lc cs" for cs
    using assms(3,4) by (rule normalize_idem)
  have inv: "normalizedDistinct lc (chips (run lc p now evs))"
    using assms(1,2) idem by (rule normalizedDistinct_run)
  then have "distinct (map email (chips (run lc p now evs)))"
    by (simp add: normalizedDistinct_def)
  then show ?thesis
    by (simp add: normalizedDistinct_normalizedEmails [OF inv])
qed

text \<open>
  Seeded with \<^verbatim>\<open>a@x.com\<close> and \<^verbatim>\<open>b@x.com\<close>: the commit of \<^verbatim>\<open>" A@X.com"\<close> is ignored,
  \<^verbatim>\<open>c@x.com\<close> is appended, \<^verbatim>\<open>b@x.com\<close> is deleted.
\<close>

theorem chips_unique_for_normalized_seeds_witness:
  "seeds (exampleProps\<lparr>limit := None, initialEmails := Some [js ''a@x.com'', js ''b@x.com'']\<rparr>)
   = [js ''a@x.com'', js ''b@x.com'']
   \<and> normalizedEmails asciiToLowerCase (chips (run asciiToLowerCase
        (exampleProps\<lparr>limit := None, initialEmails := Some [js ''a@x.com'', js ''b@x.com'']\<rparr>)
        10
        [Typed (js '' A@X.com''), KeyDown (js ''Enter'') 11, Typed (js ''c@x.com''), Blur 12,
         ChipClick 1]))
   = [js ''a@x.com'', js ''c@x.com'']
   \<and> distinct (normalizedEmails asciiToLowerCase (chips (run asciiToLowerCase
        (exampleProps\<lparr>limit := None, initialEmails := Some [js ''a@x.com'', js ''b@x.com'']\<rparr>)
        10
        [Typed (js '' A@X.com''), KeyDown (js ''Enter'') 11, Typed (js ''c@x.com''), Blur 12,
         ChipClick 1])))"
  using chips_unique_for_normalized_seeds
    [where p = "exampleProps\<lparr>limit := None,
                  initialEmails := Some [js ''a@x.com'', js ''b@x.com'']\<rparr>"
       and lc = asciiToLowerCase and now = 10
       and evs = "[Typed (js '' A@X.com''), KeyDown (js ''Enter'') 11, Typed (js ''c@x.com''),
                   Blur 12, ChipClick 1]",
     OF _ _ asciiToLowerCase_idem trim_asciiToLowerCase]
  by (simp add: model_defs string_defs)

text \<open>
  Without the condition on the initial emails two chips can share an email. The initial
  list is taken as it is: the same email twice gives two chips. And the commit compares
  the normalized text with the emails as they are stored: after the seed \<^verbatim>\<open>"A@x.com "\<close>
  the commit of \<^verbatim>\<open>a@x.com\<close> is not a duplicate.
\<close>

theorem seeded_duplicates_are_kept:
  "normalizedEmails asciiToLowerCase (chips (run asciiToLowerCase
      (exampleProps\<lparr>limit := None, initialEmails := Some [js ''a@x.com'', js ''a@x.com'']\<rparr>)
      10 []))
   = [js ''a@x.com'', js ''a@x.com'']
   \<and> chips (run asciiToLowerCase
        (exampleProps\<lparr>limit := None, initialEmails := Some [js ''A@x.com '']\<rparr>) 10
        [Typed (js ''a@x.com''), KeyDown (js ''Enter'') 11])
   = [\<lparr>email = js ''A@x.com '', valid = True, key = 10\<rparr>,
      \<lparr>email = js ''a@x.com'', valid = True, key = 11\<rparr>]
   \<and> normalizedEmails asciiToLowerCase (chips (run asciiToLowerCase
        (exampleProps\<lparr>limit := None, initialEmails := Some [js ''A@x.com '']\<rparr>) 10
        [Typed (js ''a@x.com''), KeyDown (js ''Enter'') 11]))
   = [js ''a@x.com'', js ''a@x.com'']"
  by (simp add: model_defs string_defs)

section \<open>The limit flags\<close>

lemma typeAndEnter_snoc:
  "typeAndEnter (vts @ [(v, t)]) = typeAndEnter vts @ [Typed v, KeyDown (js ''Enter'') t]"
  by (simp add: typeAndEnter_def)

text \<open>Typing a fresh text into a mounted field and pressing Enter appends its normal form.\<close>

lemma step_type_enter:
  assumes "inputRef s \<noteq> None" and "\<not> limitDisable p s"
    and "normalize lc v \<noteq> []" and "normalize lc v \<notin> email ` set (chips s)"
  shows "map email (chips (step lc p (step lc p s (Typed v)) (KeyDown (js ''Enter'') t)))
         = map email (chips s) @ [normalize lc v]"
proof -
  let ?s1 = "step lc p s (Typed v)"
  have h1: "handle lc p s (Typed v) = s\<lparr>inputRef := Some v\<rparr>"
    using assms(1) by (auto split: option.splits)
  have d1: "\<not> limitDisable p (s\<lparr>inputRef := Some v\<rparr>)"
    using assms(2) limitDisable_chips [of "s\<lparr>inputRef := Some v\<rparr>" s p] by simp
  have c1: "chips ?s1 = chips s"
    unfolding step_def h1 by (simp add: chips_settle)
  have r1: "inputRef ?s1 = Some v"
    unfolding step_def h1 using d1 by (simp add: inputRef_settle)
  have "handle lc p ?s1 (KeyDown (js ''Enter'') t) = updateChips lc p t ?s1"
    by (simp add: r1 handleKeyDown_def)
  then have "chips (step lc p ?s1 (KeyDown (js ''Enter'') t)) = chips (updateChips lc p t ?s1)"
    by (simp add: step_def chips_settle)
  also have "map email \<dots> = map email (chips s) @ [normalize lc v]"
    using r1 assms(3,4) c1 by (simp add: updateChips_fresh_chips)
  finally show ?thesis .
qed

text \<open>Below the limit every one of a sequence of distinct commits appends its chip.\<close>

lemma commits_emails:
  assumes "limit p = Some l"
  shows "int (length (seeds p) + length vts) \<le> l
         \<Longrightarrow> distinct (seeds p @ map (normalize lc \<circ> fst) vts)
         \<Longrightarrow> [] \<notin> set (map (normalize lc \<circ> fst) vts)
         \<Longrightarrow> map email (chips (run lc p now (typeAndEnter vts)))
             = seeds p @ map (normalize lc \<circ> fst) vts"
proof (induction vts rule: rev_induct)
  case Nil
  show ?case by (simp add: typeAndEnter_def run_Nil chips_mount initialChips_email)
next
  case (snoc x vts)
  obtain v t where x: "x = (v, t)" by (cases x)
  let ?s = "run lc p now (typeAndEnter vts)"
  have IH: "map email (chips ?s) = seeds p @ map (normalize lc \<circ> fst) vts"
    using snoc by simp
  then have "length (map email (chips ?s)) = length (seeds p) + length vts"
    by simp
  then have len: "length (chips ?s) = length (seeds p) + length vts"
    by simp
  have nd: "\<not> limitDisable p ?s"
    using snoc.prems(1) assms len by (simp add: limitDisable_def)
  then have ir: "inputRef ?s \<noteq> None" by (simp add: run_inputRef)
  have "email ` set (chips ?s) = set (seeds p @ map (normalize lc \<circ> fst) vts)"
    using IH by (metis set_map)
  then have fresh: "normalize lc v \<notin> email ` set (chips ?s)"
    using snoc.prems(2) x by auto
  have ne: "normalize lc v \<noteq> []" using snoc.prems(3) x by auto
  show ?case
    using step_type_enter [OF ir nd ne fresh, of t] IH
    by (simp add: x typeAndEnter_snoc run_append)
qed

lemma limitDisable_iff:
  "limitDisable p s \<longleftrightarrow> (\<exists>l. limit p = Some l \<and> l \<noteq> 0 \<and> l \<le> int (length (chips s)))"
  by (simp add: limitDisable_def split: option.splits)

text \<open>
  C5. A configured limit is a positive integer; the limit 0 is left out. In every state
  that the widget reaches, the text field is disabled if and only if a limit is configured
  and the number of chips is at least the limit; the limit flag has the same value, and so
  has the visibility of the limit message. In particular, when commits of texts with
  pairwise different, non-empty normal forms, different from the initial emails too, bring
  the number of chips to the limit (N commits with the limit N and no initial emails),
  every one of them appends its chip and the field is disabled after the last; and
  whenever the list is not longer than the limit, an event that makes it shorter leaves
  the field enabled.
\<close>

theorem limit_flags_follow_chip_count:
  assumes "limit p \<noteq> Some 0"
  shows "(disableInput (run lc p now evs)
            \<longleftrightarrow> (\<exists>l. limit p = Some l \<and> l \<le> int (length (chips (run lc p now evs)))))
       \<and> limitValidation (run lc p now evs) = disableInput (run lc p now evs)
       \<and> inputShown (run lc p now evs) = (\<not> disableInput (run lc p now evs))
       \<and> limitMessageShown p (run lc p now evs) = disableInput (run lc p now evs)
       \<and> (vts \<noteq> [] \<and> limit p = Some (int (length (seeds p) + length vts))
            \<and> distinct (seeds p @ map (normalize lc \<circ> fst) vts)
            \<and> [] \<notin> set (map (normalize lc \<circ> fst) vts)
            \<longrightarrow> map email (chips (run lc p now (typeAndEnter vts)))
                = seeds p @ map (normalize lc \<circ> fst) vts
              \<and> disableInput (run lc p now (typeAndEnter vts)))
       \<and> (limit p = Some n \<and> int (length (chips s)) \<le> n
            \<and> length (chips (step lc p s ev)) < length (chips s)
            \<longrightarrow> \<not> disableInput (step lc p s ev))"
proof -
  have flags: "disableInput (run lc p now evs) = limitDisable p (run lc p now evs)"
      "limitValidation (run lc p now evs) = limitDisable p (run lc p now evs)" for evs
    using run_flags [of lc p now evs] by simp_all
  have iff: "limitDisable p t \<longleftrightarrow> (\<exists>l. limit p = Some l \<and> l \<le> int (length (chips t)))" for t
    using assms by (auto simp: limitDisable_iff)
  have msg: "limitMessageShown p (run lc p now evs) = disableInput (run lc p now evs)"
    by (auto simp: limitMessageShown_def limitSet_def flags limitDisable_def
        split: option.splits)
  have commits: "map email (chips (run lc p now (typeAndEnter vts)))
        = seeds p @ map (normalize lc \<circ> fst) vts
      \<and> disableInput (run lc p now (typeAndEnter vts))"
    if a: "vts \<noteq> []" "limit p = Some (int (length (seeds p) + length vts))"
      "distinct (seeds p @ map (normalize lc \<circ> fst) vts)"
      "[] \<notin> set (map (normalize lc \<circ> fst) vts)"
  proof -
    have em: "map email (chips (run lc p now (typeAndEnter vts)))
        = seeds p @ map (normalize lc \<circ> fst) vts"
      using commits_emails [OF a(2) _ a(3) a(4)] by simp
    then have "length (map email (chips (run lc p now (typeAndEnter vts))))
        = length (seeds p) + length vts"
      by simp
    then have "length (chips (run lc p now (typeAndEnter vts))) = length (seeds p) + length vts"
      by simp
    then have "limitDisable p (run lc p now (typeAndEnter vts))"
      using a(1,2) by (cases vts) (simp_all add: limitDisable_def)
    then show ?thesis using em by (simp add: flags)
  qed
  have shorter: "\<not> disableInput (step lc p s ev)"
    if b: "limit p = Some n" "int (length (chips s)) \<le> n"
      "length (chips (step lc p s ev)) < length (chips s)"
  proof -
    have "disableInput (step lc p s ev) = limitDisable p (step lc p s ev)"
      by (simp add: step_def disableInput_settle limitDisable_settle)
    then show ?thesis using b by (simp add: limitDisable_def)
  qed
  show ?thesis
    using commits shorter
    by (simp add: flags msg iff inputShown_def)
qed

text \<open>
  The scenario with the limit 2: after the first commit the field is enabled, after the
  second it is disabled and the limit flag is set, and after the deletion of the second
  chip the field is enabled again.
\<close>

theorem limit_flags_follow_chip_count_witness:
  "disableInput (run asciiToLowerCase exampleProps 0 (typeAndEnter [(js ''a@x.com'', 1)]))
     = False
   \<and> map email (chips (run asciiToLowerCase exampleProps 0
        (typeAndEnter [(js ''a@x.com'', 1), (js ''bad'', 2)])))
     = [js ''a@x.com'', js ''bad'']
   \<and> disableInput (run asciiToLowerCase exampleProps 0
        (typeAndEnter [(js ''a@x.com'', 1), (js ''bad'', 2)]))
     = True
   \<and> limitValidation (run asciiToLowerCase exampleProps 0
        (typeAndEnter [(js ''a@x.com'', 1), (js ''bad'', 2)]))
     = True
   \<and> disableInput (step asciiToLowerCase exampleProps
        (run asciiToLowerCase exampleProps 0
           (typeAndEnter [(js ''a@x.com'', 1), (js ''bad'', 2)]))
        (ChipClick 1))
     = False"
  using limit_flags_follow_chip_count
    [where p = exampleProps and lc = asciiToLowerCase and now = 0
       and evs = "typeAndEnter [(js ''a@x.com'', 1)]"
       and vts = "[(js ''a@x.com'', 1), (js ''bad'', 2)]" and n = 2
       and s = "run asciiToLowerCase exampleProps 0
          (typeAndEnter [(js ''a@x.com'', 1), (js ''bad'', 2)])"
       and ev = "ChipClick 1"]
  by (simp add: model_defs string_defs)

end
